theory Spec2Isabelle
  imports Main
begin

section \<open>The columnar engine, as far as the wrapper uses it\<close>

text \<open>
  \<^verbatim>\<open>patito/polars.py\<close> wraps the data frames of the polars library. The wrapper builds
  expressions and hands them to \<^verbatim>\<open>select\<close> and \<^verbatim>\<open>with_columns\<close>; what these do with
  them is the library's business. This section fixes the part of the library's behaviour
  that the wrapper relies on: a frame is an ordered list of named columns, a column is a
  dtype tag and a list of nullable values, and an expression evaluates against a frame to
  one column.
\<close>

type_synonym name = string

datatype dtype = Int64 | Int32 | UInt8 | UInt16 | Float64 | Utf8 | Boolean | Categorical
  | ListOf dtype

datatype val = IntV int | StrV string | BoolV bool | ListV "val option list"

record column =
  col_dtype :: dtype
  col_vals :: "val option list"

type_synonym table = "(name \<times> column) list"

datatype error =
    ColumnNotFoundError name
  | DuplicateError
  | ShapeError
  | SchemaError
  | ComputeError
  | KeyError name
  | TypeError
  | NotImplementedError
  | RecursionError
  | RowDoesNotExist string
  | MultipleRowsReturned string

text \<open>
  An expression that the user wrote (the \<^verbatim>\<open>derived_from\<close> of a field) is opaque to the
  wrapper: it only asks for its root column names and lets the engine compute it.
\<close>

record user_expr =
  root_names :: "name list"
  compute :: "table \<Rightarrow> error + column"

datatype expr =
    Col name
  | Cast expr dtype
  | Alias expr name
  | FillNull expr expr
  | ListGet expr int
  | Lit "val option" dtype
  | SeriesLit name dtype "val option list"
  | UserExpr user_expr

text \<open>
  The engine's conversion of one value between two dtypes is a parameter \<open>conv\<close> of the
  model (\<open>None\<close>: the value is not representable in the target type). A cast converts
  value by value, keeps nulls, and fails as a whole when one value cannot be converted.
\<close>

type_synonym conv = "dtype \<Rightarrow> dtype \<Rightarrow> val \<Rightarrow> val option"

definition cast_column :: "conv \<Rightarrow> dtype \<Rightarrow> column \<Rightarrow> error + column" where
  "cast_column conv dt c =
     (if list_ex (\<lambda>v. case v of None \<Rightarrow> False | Some x \<Rightarrow> conv (col_dtype c) dt x = None)
           (col_vals c)
      then Inl ComputeError
      else Inr \<lparr>col_dtype = dt,
                col_vals = map (\<lambda>v. case v of None \<Rightarrow> None | Some x \<Rightarrow> conv (col_dtype c) dt x)
                             (col_vals c)\<rparr>)"

definition fill :: "val option \<Rightarrow> val option \<Rightarrow> val option" where
  "fill x y = (case x of None \<Rightarrow> y | Some v \<Rightarrow> Some v)"

text \<open>A column of length one stands for a scalar and is stretched to the height asked for.\<close>

definition broadcast :: "nat \<Rightarrow> val option list \<Rightarrow> error + val option list" where
  "broadcast h vs =
     (if length vs = h then Inr vs
      else (case vs of [v] \<Rightarrow> Inr (replicate h v) | _ \<Rightarrow> Inl ShapeError))"

definition fill_null_column :: "column \<Rightarrow> column \<Rightarrow> error + column" where
  "fill_null_column a b =
     (case broadcast (length (col_vals a)) (col_vals b) of
        Inl e \<Rightarrow> Inl e
      | Inr vb \<Rightarrow> Inr (a\<lparr>col_vals := map2 fill (col_vals a) vb\<rparr>))"

text \<open>\<^verbatim>\<open>list.get(i, null_on_oob=True)\<close>: negative indices count from the end.\<close>

definition list_get :: "int \<Rightarrow> val option \<Rightarrow> val option" where
  "list_get i v =
     (case v of
        Some (ListV xs) \<Rightarrow>
          (if 0 \<le> i \<and> i < int (length xs) then xs ! nat i
           else if i < 0 \<and> - i \<le> int (length xs) then xs ! nat (int (length xs) + i)
           else None)
      | _ \<Rightarrow> None)"

definition list_get_column :: "int \<Rightarrow> column \<Rightarrow> error + column" where
  "list_get_column i c =
     (case col_dtype c of
        ListOf d \<Rightarrow> Inr \<lparr>col_dtype = d, col_vals = map (list_get i) (col_vals c)\<rparr>
      | _ \<Rightarrow> Inl SchemaError)"

fun eval :: "conv \<Rightarrow> table \<Rightarrow> expr \<Rightarrow> error + column" where
  "eval conv t (Col n) =
     (case map_of t n of None \<Rightarrow> Inl (ColumnNotFoundError n) | Some c \<Rightarrow> Inr c)"
| "eval conv t (Cast e dt) =
     (case eval conv t e of Inl err \<Rightarrow> Inl err | Inr c \<Rightarrow> cast_column conv dt c)"
| "eval conv t (Alias e n) = eval conv t e"
| "eval conv t (FillNull a b) =
     (case eval conv t a of
        Inl err \<Rightarrow> Inl err
      | Inr ca \<Rightarrow> (case eval conv t b of Inl err \<Rightarrow> Inl err | Inr cb \<Rightarrow> fill_null_column ca cb))"
| "eval conv t (ListGet e i) =
     (case eval conv t e of Inl err \<Rightarrow> Inl err | Inr c \<Rightarrow> list_get_column i c)"
| "eval conv t (Lit v dt) = Inr \<lparr>col_dtype = dt, col_vals = [v]\<rparr>"
| "eval conv t (SeriesLit n dt vs) = Inr \<lparr>col_dtype = dt, col_vals = vs\<rparr>"
| "eval conv t (UserExpr u) = compute u t"

fun output_name :: "expr \<Rightarrow> name" where
  "output_name (Col n) = n"
| "output_name (Cast e dt) = output_name e"
| "output_name (Alias e n) = n"
| "output_name (FillNull a b) = output_name a"
| "output_name (ListGet e i) = output_name e"
| "output_name (Lit v dt) = ''literal''"
| "output_name (SeriesLit n dt vs) = n"
| "output_name (UserExpr u) = (case root_names u of [] \<Rightarrow> ''literal'' | r # _ \<Rightarrow> r)"

text \<open>All expressions of one \<^verbatim>\<open>select\<close> or \<^verbatim>\<open>with_columns\<close> see the same input frame.\<close>

fun eval_all :: "conv \<Rightarrow> table \<Rightarrow> expr list \<Rightarrow> error + table" where
  "eval_all conv t [] = Inr []"
| "eval_all conv t (e # es) =
     (case eval conv t e of
        Inl err \<Rightarrow> Inl err
      | Inr c \<Rightarrow> (case eval_all conv t es of
                   Inl err \<Rightarrow> Inl err
                 | Inr rs \<Rightarrow> Inr ((output_name e, c) # rs)))"

definition names :: "table \<Rightarrow> name list" where
  "names t = map fst t"


definition height :: "table \<Rightarrow> nat" where
  "height t = (case t of [] \<Rightarrow> 0 | (n, c) # _ \<Rightarrow> length (col_vals c))"

text \<open>
  \<^verbatim>\<open>select\<close>: the frame of the results, in the order of the expressions. The projections
  that the wrapper builds are column references and expressions over them, so the
  stretching of scalars in a \<^verbatim>\<open>select\<close> is left out.
\<close>

definition select :: "conv \<Rightarrow> expr list \<Rightarrow> table \<Rightarrow> error + table" where
  "select conv es t =
     (case eval_all conv t es of
        Inl err \<Rightarrow> Inl err
      | Inr rs \<Rightarrow> if distinct (map fst rs) then Inr rs else Inl DuplicateError)"

fun broadcast_all :: "nat \<Rightarrow> table \<Rightarrow> error + table" where
  "broadcast_all h [] = Inr []"
| "broadcast_all h ((n, c) # rs) =
     (case broadcast h (col_vals c) of
        Inl err \<Rightarrow> Inl err
      | Inr vs \<Rightarrow> (case broadcast_all h rs of
                    Inl err \<Rightarrow> Inl err
                  | Inr rs' \<Rightarrow> Inr ((n, c\<lparr>col_vals := vs\<rparr>) # rs')))"

text \<open>
  \<^verbatim>\<open>with_columns\<close>: a result named like an existing column replaces it in place, the
  other results are appended in their order. On a frame that has columns, a result of
  length one is stretched to the height of the frame.
\<close>

definition with_columns :: "conv \<Rightarrow> expr list \<Rightarrow> table \<Rightarrow> error + table" where
  "with_columns conv es t =
     (case eval_all conv t es of
        Inl err \<Rightarrow> Inl err
      | Inr rs \<Rightarrow>
          if \<not> distinct (map fst rs) then Inl DuplicateError
          else (case (if t = [] then Inr rs else broadcast_all (height t) rs) of
                  Inl err \<Rightarrow> Inl err
                | Inr rs' \<Rightarrow>
                    Inr (map (\<lambda>(n, c). case map_of rs' n of None \<Rightarrow> (n, c) | Some c' \<Rightarrow> (n, c')) t
                         @ filter (\<lambda>(n, c). n \<notin> set (names t)) rs')))"

text \<open>A lazy frame is a plan: the operations recorded so far, run by \<^verbatim>\<open>collect\<close>.\<close>

datatype op = WithColumns "expr list" | Select "expr list"

fun run_op :: "conv \<Rightarrow> op \<Rightarrow> table \<Rightarrow> error + table" where
  "run_op conv (WithColumns es) t = with_columns conv es t"
| "run_op conv (Select es) t = select conv es t"

fun collect :: "conv \<Rightarrow> op list \<Rightarrow> table \<Rightarrow> error + table" where
  "collect conv [] t = Inr t"
| "collect conv (p # ps) t =
     (case run_op conv p t of Inl err \<Rightarrow> Inl err | Inr t' \<Rightarrow> collect conv ps t')"


section \<open>The schema, as the wrapper reads it\<close>

text \<open>
  The model class is declared in another module. The wrapper reads these attributes of it;
  they are the fields of the record, each with the name it has in the source.
  \<^item> \<open>schema_properties\<close>: \<^verbatim>\<open>_schema_properties()\<close>, a dict in declaration order; of the
    properties of a field only the optional \<^verbatim>\<open>"dtype"\<close> entry is read.
  \<^item> \<open>column_infos\<close>, of which \<^verbatim>\<open>derived_from\<close> is read;
  \<^item> \<open>model_fields\<close>, of which \<^verbatim>\<open>validation_alias\<close> is read;
  \<^item> \<open>dtypes\<close>, \<open>valid_dtypes\<close>, \<open>defaults\<close>, \<open>derived_columns\<close>.
\<close>

datatype derivation = DerivedStr name | DerivedExpr user_expr | DerivedOther

datatype path_item = PStr string | PInt int

datatype validation_alias = AliasStr string | AliasPath "path_item list"
  | AliasChoices "validation_alias list"
  | AliasOther

record model =
  schema_properties :: "(name \<times> dtype option) list"
  column_infos :: "(name \<times> derivation option) list"
  model_fields :: "(name \<times> validation_alias option) list"
  dtypes :: "(name \<times> dtype) list"
  valid_dtypes :: "(name \<times> dtype list) list"
  defaults :: "(name \<times> val option) list"
  derived_columns :: "name list"

text \<open>A dict subscript raises \<^verbatim>\<open>KeyError\<close> on a missing key.\<close>

definition subscript :: "(name \<times> 'a) list \<Rightarrow> name \<Rightarrow> error + 'a" where
  "subscript d k = (case map_of d k of None \<Rightarrow> Inl (KeyError k) | Some v \<Rightarrow> Inr v)"

section \<open>\<^verbatim>\<open>LazyFrame.cast\<close>\<close>






section \<open>\<^verbatim>\<open>LazyFrame.derive\<close>\<close>

text \<open>
  \<^verbatim>\<open>_derive_column\<close> calls itself for every root column of an expression. Nothing in it
  bounds the recursion, so the model carries the number of stack frames that the
  interpreter still allows: a call with none left is Python's \<^verbatim>\<open>RecursionError\<close>.
  The frame \<open>df\<close> is the plan built so far; \<^verbatim>\<open>root_cols.pop()\<close> takes the roots from
  the end of the list.
\<close>

fun derive_column :: "nat \<Rightarrow> model \<Rightarrow> op list \<Rightarrow> name \<Rightarrow> error + (op list \<times> name list)"
  and derive_roots ::
    "nat \<Rightarrow> model \<Rightarrow> op list \<Rightarrow> name list \<Rightarrow> name list \<Rightarrow> error + (op list \<times> name list)"
where
  "derive_column 0 m df column_name = Inl RecursionError"
| "derive_column (Suc depth) m df column_name =
     (case map_of (column_infos m) column_name of
        None \<Rightarrow> Inr (df, [])
      | Some None \<Rightarrow> Inr (df, [])
      | Some (Some derived_from) \<Rightarrow>
          (case subscript (dtypes m) column_name of
             Inl err \<Rightarrow> Inl err
           | Inr dtype \<Rightarrow>
               (case derived_from of
                  DerivedStr src \<Rightarrow>
                    Inr (df @ [WithColumns [Alias (Cast (Col src) dtype) column_name]],
                         [column_name])
                | DerivedExpr u \<Rightarrow>
                    (case derive_roots depth m df (rev (root_names u)) [] of
                       Inl err \<Rightarrow> Inl err
                     | Inr (df', derived) \<Rightarrow>
                         Inr (df' @ [WithColumns [Alias (Cast (UserExpr u) dtype) column_name]],
                              derived @ [column_name]))
                | DerivedOther \<Rightarrow> Inl TypeError)))"
| "derive_roots depth m df [] derived = Inr (df, derived)"
| "derive_roots depth m df (root_col # root_cols) derived =
     (case derive_column depth m df root_col of
        Inl err \<Rightarrow> Inl err
      | Inr (df', d) \<Rightarrow> derive_roots depth m df' root_cols (derived @ d))"

fun derive_loop ::
  "nat \<Rightarrow> model \<Rightarrow> name list \<Rightarrow> op list \<times> name list \<Rightarrow> error + (op list \<times> name list)"
where
  "derive_loop depth m [] st = Inr st"
| "derive_loop depth m (column_name # rest) (df, derived) =
     (if column_name \<in> set derived then derive_loop depth m rest (df, derived)
      else (case derive_column depth m df column_name of
              Inl err \<Rightarrow> Inl err
            | Inr (df', d) \<Rightarrow> derive_loop depth m rest (df', derived @ d)))"

text \<open>
  \<^verbatim>\<open>original_columns\<close> is a Python \<^verbatim>\<open>set\<close>, and the columns outside the model are
  listed by iterating \<^verbatim>\<open>original_columns.union(to_derive)\<close>. The order in which a set
  hands out its elements is the interpreter's choice (it follows the hashes of the
  strings); \<open>set_iter\<close> is that choice: it maps the elements put into the set to the
  order of iteration.
\<close>

definition out_cols :: "(name list \<Rightarrow> name list) \<Rightarrow> name list \<Rightarrow> name list \<Rightarrow> name list \<Rightarrow> name list" where
  "out_cols set_iter props original_columns to_derive =
     (let first = filter (\<lambda>x. x \<in> set original_columns \<union> set to_derive) props
      in first @ filter (\<lambda>x. x \<notin> set first) (set_iter (original_columns @ to_derive)))"

definition to_derive :: "model \<Rightarrow> name list option \<Rightarrow> name list" where
  "to_derive m columns = (case columns of None \<Rightarrow> derived_columns m | Some cs \<Rightarrow> cs)"

definition derive ::
  "(name list \<Rightarrow> name list) \<Rightarrow> nat \<Rightarrow> model \<Rightarrow> name list option \<Rightarrow> name list \<Rightarrow> error + op list"
where
  "derive set_iter depth m columns schema_names =
     (let props = map fst (schema_properties m)
      in case derive_loop depth m (to_derive m columns) ([], []) of
           Inl err \<Rightarrow> Inl err
         | Inr (df, derived) \<Rightarrow>
             Inr (df @ [Select (map Col (out_cols set_iter props schema_names
                                           (to_derive m columns)))]))"

text \<open>\<^verbatim>\<open>DataFrame.derive\<close>: \<^verbatim>\<open>self.lazy().derive(columns=columns).collect()\<close>.\<close>

definition derive_df ::
  "(name list \<Rightarrow> name list) \<Rightarrow> nat \<Rightarrow> conv \<Rightarrow> model \<Rightarrow> name list option \<Rightarrow> table \<Rightarrow> error + table"
where
  "derive_df set_iter depth conv m columns t =
     (case derive set_iter depth m columns (names t) of
        Inl err \<Rightarrow> Inl err
      | Inr ops \<Rightarrow> collect conv ops t)"

section \<open>\<^verbatim>\<open>LazyFrame.unalias\<close>\<close>






section \<open>\<^verbatim>\<open>DataFrame.fill_null\<close> and \<^verbatim>\<open>DataFrame.get\<close>\<close>










section \<open>Words of the specification\<close>





text \<open>The columns that the \<^verbatim>\<open>with_columns\<close> steps of a plan define, in the order of the steps.\<close>

fun defined_names :: "op list \<Rightarrow> name list" where
  "defined_names [] = []"
| "defined_names (WithColumns es # ps) = map output_name es @ defined_names ps"
| "defined_names (Select es # ps) = defined_names ps"

text \<open>
  A schema has no cycle of derivations when its columns can be ranked so that every root
  of an expression ranks below the column that the expression derives.
\<close>

definition ranked :: "model \<Rightarrow> (name \<Rightarrow> nat) \<Rightarrow> bool" where
  "ranked m rk =
     list_all (\<lambda>(c, d). case d of
                           Some (DerivedExpr u) \<Rightarrow> list_all (\<lambda>r. rk r < rk c) (root_names u)
                         | _ \<Rightarrow> True)
       (column_infos m)"

text \<open>
  A column is underived when the schema gives no derivation for it, and a schema is flat
  when the roots of its expressions are underived.
\<close>

definition underived :: "model \<Rightarrow> name \<Rightarrow> bool" where
  "underived m c = (case map_of (column_infos m) c of None \<Rightarrow> True | Some None \<Rightarrow> True | _ \<Rightarrow> False)"

definition flat :: "model \<Rightarrow> bool" where
  "flat m =
     list_all (\<lambda>(c, d). case d of
                           Some (DerivedExpr u) \<Rightarrow> list_all (underived m) (root_names u)
                         | _ \<Rightarrow> True)
       (column_infos m)"

section \<open>Example schemas and frames\<close>

text \<open>The \<^verbatim>\<open>Product\<close> model and frame of the documentation of \<^verbatim>\<open>cast\<close>.\<close>

definition example_conv :: conv where
  "example_conv src dst v =
     (if src = dst then Some v
      else if src = Utf8 \<and> dst = UInt16 \<and> v = StrV ''8'' then Some (IntV 8)
      else None)"


















text \<open>
  The model \<^verbatim>\<open>Foo\<close> of the documentation of \<^verbatim>\<open>derive\<close>: \<^verbatim>\<open>bar\<close> comes from the column
  \<^verbatim>\<open>foo\<close>, \<^verbatim>\<open>double_bar\<close> from the expression \<^verbatim>\<open>2 * pl.col("bar")\<close>. \<open>int_map f n\<close> is an
  expression that applies \<open>f\<close> to the integers of the column \<open>n\<close>.
\<close>

definition int_map :: "(int \<Rightarrow> int) \<Rightarrow> name \<Rightarrow> user_expr" where
  "int_map f n = \<lparr>root_names = [n],
     compute = (\<lambda>t. case map_of t n of
                       None \<Rightarrow> Inl (ColumnNotFoundError n)
                     | Some c \<Rightarrow>
                         Inr (c\<lparr>col_vals := map (map_option (\<lambda>v. case v of IntV k \<Rightarrow> IntV (f k) | x \<Rightarrow> x))
                                               (col_vals c)\<rparr>))\<rparr>"

definition Foo :: model where
  "Foo = \<lparr>schema_properties = [(''bar'', None), (''double_bar'', None)],
     column_infos = [(''bar'', Some (DerivedStr ''foo'')),
                     (''double_bar'', Some (DerivedExpr (int_map (\<lambda>k. 2 * k) ''bar'')))],
     model_fields = [(''bar'', None), (''double_bar'', None)],
     dtypes = [(''bar'', Int64), (''double_bar'', Int64)],
     valid_dtypes = [(''bar'', [Int64]), (''double_bar'', [Int64])],
     defaults = [],
     derived_columns = [''bar'', ''double_bar'']\<rparr>"

definition foo_frame :: table where
  "foo_frame = [(''foo'', \<lparr>col_dtype = Int64, col_vals = [Some (IntV 1), Some (IntV 2)]\<rparr>)]"

definition foo_zed_frame :: table where
  "foo_zed_frame =
     [(''foo'', \<lparr>col_dtype = Int64, col_vals = [Some (IntV 1), Some (IntV 2)]\<rparr>),
      (''zed'', \<lparr>col_dtype = Int64, col_vals = [Some (IntV 3), Some (IntV 4)]\<rparr>)]"


text \<open>A set that hands out its elements in the reverse of the order they were put in.\<close>

definition reversed_iter :: "name list \<Rightarrow> name list" where
  "reversed_iter xs = rev (remdups xs)"

text \<open>A field that is derived from itself: \<^verbatim>\<open>a = pt.Field(derived_from=pl.col("a") + 1)\<close>.\<close>

definition Cyclic :: model where
  "Cyclic = \<lparr>schema_properties = [(''a'', None)],
     column_infos = [(''a'', Some (DerivedExpr (int_map (\<lambda>k. k + 1) ''a'')))],
     model_fields = [(''a'', None)],
     dtypes = [(''a'', Int64)],
     valid_dtypes = [(''a'', [Int64])],
     defaults = [],
     derived_columns = [''a'']\<rparr>"

text \<open>
  Two fields derived by name, \<^verbatim>\<open>b\<close> from \<^verbatim>\<open>a\<close> and \<^verbatim>\<open>a\<close> from \<^verbatim>\<open>c\<close>, declared in this order; a
  frame, and what one and two calls of \<^verbatim>\<open>derive\<close> make of it.
\<close>

definition Relay :: model where
  "Relay = \<lparr>schema_properties = [(''b'', None), (''a'', None)],
     column_infos = [(''b'', Some (DerivedStr ''a'')), (''a'', Some (DerivedStr ''c''))],
     model_fields = [(''b'', None), (''a'', None)],
     dtypes = [(''b'', Int64), (''a'', Int64)],
     valid_dtypes = [(''b'', [Int64]), (''a'', [Int64])],
     defaults = [],
     derived_columns = [''b'', ''a'']\<rparr>"

definition relay_frame :: table where
  "relay_frame =
     [(''a'', \<lparr>col_dtype = Int64, col_vals = [Some (IntV 1)]\<rparr>),
      (''c'', \<lparr>col_dtype = Int64, col_vals = [Some (IntV 5)]\<rparr>)]"

definition relay_once :: table where
  "relay_once =
     [(''b'', \<lparr>col_dtype = Int64, col_vals = [Some (IntV 1)]\<rparr>),
      (''a'', \<lparr>col_dtype = Int64, col_vals = [Some (IntV 5)]\<rparr>),
      (''c'', \<lparr>col_dtype = Int64, col_vals = [Some (IntV 5)]\<rparr>)]"

definition relay_twice :: table where
  "relay_twice =
     [(''b'', \<lparr>col_dtype = Int64, col_vals = [Some (IntV 5)]\<rparr>),
      (''a'', \<lparr>col_dtype = Int64, col_vals = [Some (IntV 5)]\<rparr>),
      (''c'', \<lparr>col_dtype = Int64, col_vals = [Some (IntV 5)]\<rparr>)]"

text \<open>The same two fields, with \<^verbatim>\<open>b\<close> derived from the expression \<^verbatim>\<open>pl.col("a")\<close>.\<close>

definition RelayExpr :: model where
  "RelayExpr = \<lparr>schema_properties = [(''b'', None), (''a'', None)],
     column_infos = [(''b'', Some (DerivedExpr (int_map (\<lambda>k. k) ''a''))),
                     (''a'', Some (DerivedStr ''c''))],
     model_fields = [(''b'', None), (''a'', None)],
     dtypes = [(''b'', Int64), (''a'', Int64)],
     valid_dtypes = [(''b'', [Int64]), (''a'', [Int64])],
     defaults = [],
     derived_columns = [''b'', ''a'']\<rparr>"

section \<open>Properties\<close>

subsection \<open>The engine\<close>












subsection \<open>The cast policy\<close>




subsection \<open>Filling nulls with the defaults of the schema\<close>











subsection \<open>Fetching the single row\<close>




subsection \<open>Alias expressions\<close>






















subsection \<open>The projection of \<^verbatim>\<open>unalias\<close>\<close>











subsection \<open>The plan of \<^verbatim>\<open>derive\<close>\<close>

lemma collect_append:
  "collect conv (ps @ qs) t =
     (case collect conv ps t of Inl err \<Rightarrow> Inl err | Inr t1 \<Rightarrow> collect conv qs t1)"
  by (induction ps arbitrary: t) (auto split: sum.splits)

lemma eval_all_names: "eval_all conv t es = Inr rs \<Longrightarrow> map fst rs = map output_name es"
  by (induction es arbitrary: rs) (auto split: sum.splits)

lemma select_cols_names: "select conv (map Col xs) t = Inr t' \<Longrightarrow> names t' = xs"
  by (auto simp: select_def names_def comp_def split: sum.splits if_splits dest!: eval_all_names)

lemma out_cols_rest:
  assumes "distinct (set_iter (orig @ td))" and "set (set_iter (orig @ td)) = set (orig @ td)"
  shows "\<exists>rest. out_cols set_iter props orig td
              = filter (\<lambda>x. x \<in> set orig \<union> set td) props @ rest
           \<and> distinct rest \<and> set rest = (set orig \<union> set td) - set props"
  using assms by (auto simp: out_cols_def Let_def)

text \<open>
  Claim C1, with the order of the columns outside the schema left open. When \<^verbatim>\<open>derive\<close>
  succeeds, the columns of the result are: first the fields of the schema that are among
  the columns of the input or the columns to derive, in the order of their declaration;
  then the remaining names of that union, each once. (The order of the remaining names
  is the order in which the interpreter iterates a set; any order that lists each
  element once is allowed for.)
\<close>

theorem derive_column_order:
  assumes ok: "derive_df set_iter depth conv m columns t = Inr t'"
    and it: "\<And>xs. distinct (set_iter xs) \<and> set (set_iter xs) = set xs"
  shows "\<exists>rest. names t' =
            filter (\<lambda>x. x \<in> set (names t) \<union> set (to_derive m columns))
              (map fst (schema_properties m)) @ rest
         \<and> distinct rest
         \<and> set rest = (set (names t) \<union> set (to_derive m columns)) - set (map fst (schema_properties m))"
proof -
  let ?oc = "out_cols set_iter (map fst (schema_properties m)) (names t) (to_derive m columns)"
  from ok obtain df where "collect conv (df @ [Select (map Col ?oc)]) t = Inr t'"
    by (auto simp: derive_df_def derive_def to_derive_def Let_def split: sum.splits)
  then obtain t1 where "select conv (map Col ?oc) t1 = Inr t'"
    by (auto simp: collect_append split: sum.splits)
  then have n: "names t' = ?oc" by (rule select_cols_names)
  have d: "distinct (set_iter (names t @ to_derive m columns))"
    and s: "set (set_iter (names t @ to_derive m columns)) = set (names t @ to_derive m columns)"
    using it by blast+
  show ?thesis
    unfolding n
    by (rule out_cols_rest [where set_iter = set_iter and orig = "names t"
          and td = "to_derive m columns", OF d s])
qed

text \<open>The documented example: \<^verbatim>\<open>bar\<close>, \<^verbatim>\<open>double_bar\<close>, \<^verbatim>\<open>foo\<close>.\<close>

theorem derive_column_order_witness:
  "derive_df remdups 2 example_conv Foo None foo_frame =
     Inr [(''bar'', \<lparr>col_dtype = Int64, col_vals = [Some (IntV 1), Some (IntV 2)]\<rparr>),
          (''double_bar'', \<lparr>col_dtype = Int64, col_vals = [Some (IntV 2), Some (IntV 4)]\<rparr>),
          (''foo'', \<lparr>col_dtype = Int64, col_vals = [Some (IntV 1), Some (IntV 2)]\<rparr>)]
   \<and> to_derive Foo None = [''bar'', ''double_bar'']
   \<and> names foo_frame = [''foo'']"
proof -
  have h1: "derive_df remdups 2 example_conv Foo None foo_frame =
     Inr [(''bar'', \<lparr>col_dtype = Int64, col_vals = [Some (IntV 1), Some (IntV 2)]\<rparr>),
          (''double_bar'', \<lparr>col_dtype = Int64, col_vals = [Some (IntV 2), Some (IntV 4)]\<rparr>),
          (''foo'', \<lparr>col_dtype = Int64, col_vals = [Some (IntV 1), Some (IntV 2)]\<rparr>)]"
    by code_simp
  have h2: "distinct (remdups xs) \<and> set (remdups xs) = set xs" for xs :: "name list" by simp
  have h3: "to_derive Foo None = [''bar'', ''double_bar'']" by code_simp
  have h4: "names foo_frame = [''foo'']" by code_simp
  from derive_column_order [OF h1 h2] h1 h3 h4 show ?thesis by simp
qed

text \<open>
  Claim C1 as it is written fails: the columns outside the schema come out in the order
  of the set, not in the order of the input. With a set that iterates in reverse, the
  input columns \<^verbatim>\<open>foo\<close>, \<^verbatim>\<open>zed\<close> come out as \<^verbatim>\<open>zed\<close>, \<^verbatim>\<open>foo\<close>.
\<close>

theorem derive_column_order_counterexample:
  "derive_df reversed_iter 2 example_conv Foo None foo_zed_frame =
     Inr [(''bar'', \<lparr>col_dtype = Int64, col_vals = [Some (IntV 1), Some (IntV 2)]\<rparr>),
          (''double_bar'', \<lparr>col_dtype = Int64, col_vals = [Some (IntV 2), Some (IntV 4)]\<rparr>),
          (''zed'', \<lparr>col_dtype = Int64, col_vals = [Some (IntV 3), Some (IntV 4)]\<rparr>),
          (''foo'', \<lparr>col_dtype = Int64, col_vals = [Some (IntV 1), Some (IntV 2)]\<rparr>)]
   \<and> names foo_zed_frame = [''foo'', ''zed'']
   \<and> distinct (reversed_iter (names foo_zed_frame @ to_derive Foo None))
   \<and> set (reversed_iter (names foo_zed_frame @ to_derive Foo None))
       = set (names foo_zed_frame @ to_derive Foo None)"
  by code_simp

subsection \<open>Columns derived once, and again\<close>





text \<open>
  Where no root is itself derived, nothing is derived twice: the plan of a flat schema
  defines every column at most once.
\<close>

lemma flat_roots:
  "flat m \<Longrightarrow> map_of (column_infos m) c = Some (Some (DerivedExpr u)) \<Longrightarrow>
   list_all (underived m) (root_names u)"
  by (auto simp: flat_def list_all_iff dest!: map_of_SomeD)

lemma derive_column_underived:
  "underived m c \<Longrightarrow> derive_column depth m df c = Inr r \<Longrightarrow> r = (df, [])"
  by (cases depth) (auto simp: underived_def split: option.splits)

lemma derive_roots_underived:
  "list_all (underived m) rs \<Longrightarrow> derive_roots depth m df rs acc = Inr r \<Longrightarrow> r = (df, acc)"
proof (induction rs arbitrary: acc)
  case Nil
  then show ?case by simp
next
  case (Cons r' rs)
  then show ?case by (auto split: sum.splits dest!: derive_column_underived)
qed

lemma derive_column_flat:
  assumes "flat m" and "derive_column depth m df c = Inr (df', d)"
  shows "(df' = df \<and> d = []) \<or> (defined_names df' = defined_names df @ [c] \<and> d = [c])"
proof (cases depth)
  case 0
  then show ?thesis using assms by simp
next
  case (Suc n)
  have dn: "defined_names (xs @ [WithColumns [Alias e c]]) = defined_names xs @ [c]" for xs e
    by (induction xs rule: defined_names.induct) auto
  show ?thesis
  proof (cases "map_of (column_infos m) c")
    case None
    then show ?thesis using assms Suc by simp
  next
    case (Some a)
    show ?thesis
    proof (cases a)
      case None
      then show ?thesis using assms Suc Some by simp
    next
      case (Some derived_from)
      note s = \<open>map_of (column_infos m) c = Some a\<close> Some
      show ?thesis
      proof (cases derived_from)
        case (DerivedStr src)
        then show ?thesis using assms Suc s dn by (auto simp: subscript_def split: option.splits)
      next
        case (DerivedExpr u)
        have "list_all (underived m) (rev (root_names u))"
          using flat_roots [OF assms(1)] s DerivedExpr by (simp add: list_all_iff)
        from derive_roots_underived [OF this] show ?thesis
          using assms Suc s DerivedExpr dn
          by (fastforce simp: subscript_def split: option.splits sum.splits)
      next
        case DerivedOther
        then show ?thesis using assms Suc s by (auto simp: subscript_def split: option.splits)
      qed
    qed
  qed
qed

lemma derive_loop_flat:
  assumes "flat m"
  shows "derive_loop depth m cs (df, derived) = Inr (df', derived') \<Longrightarrow>
         defined_names df = derived \<Longrightarrow> distinct derived \<Longrightarrow>
         defined_names df' = derived' \<and> distinct derived'"
proof (induction cs arbitrary: df derived)
  case Nil
  then show ?case by simp
next
  case (Cons c cs)
  show ?case
  proof (cases "c \<in> set derived")
    case True
    then show ?thesis using Cons by simp
  next
    case False
    then obtain df1 d where dc: "derive_column depth m df c = Inr (df1, d)"
      and rest: "derive_loop depth m cs (df1, derived @ d) = Inr (df', derived')"
      using Cons.prems(1) by (auto split: sum.splits)
    from derive_column_flat [OF assms dc]
    have "defined_names df1 = derived @ d \<and> distinct (derived @ d)"
      using Cons.prems(2,3) False by auto
    then show ?thesis using Cons.IH [OF rest] by simp
  qed
qed

lemma derive_loop_defines_once:
  assumes "flat m" and "derive_loop depth m cs ([], []) = Inr (df, derived)"
  shows "distinct (defined_names df)"
  using derive_loop_flat [OF assms] by simp

subsection \<open>A cycle of derivations\<close>

lemma cyclic_column: "derive_column depth Cyclic df ''a'' = Inl RecursionError"
  by (induction depth) (simp_all add: Cyclic_def subscript_def int_map_def)

text \<open>
  Claim C6 does not hold of the code. On the schema whose field \<^verbatim>\<open>a\<close> is derived from an
  expression over \<^verbatim>\<open>a\<close>, \<^verbatim>\<open>_derive_column\<close> calls itself without end: whatever the
  number of stack frames that the interpreter allows, \<^verbatim>\<open>derive\<close> uses them up and ends in
  \<^verbatim>\<open>RecursionError\<close>. The code has no error for a cyclic derivation.
\<close>

theorem derive_cyclic_recursion:
  "derive set_iter depth Cyclic None schema_names = Inl RecursionError"
proof -
  have "to_derive Cyclic None = [''a'']" by (simp add: to_derive_def Cyclic_def)
  then show ?thesis using cyclic_column [of depth "[]"] by (simp add: derive_def)
qed

text \<open>With a thousand frames, as with any number.\<close>

theorem derive_cyclic_recursion_witness:
  "derive remdups 1000 Cyclic None [''a''] = Inl RecursionError"
  by (rule derive_cyclic_recursion)

text \<open>
  Without a cycle the recursion is as deep as the ranks are high, and a limit above the
  ranks of the requested columns is never reached.
\<close>

lemma ranked_roots:
  "ranked m rk \<Longrightarrow> map_of (column_infos m) c = Some (Some (DerivedExpr u)) \<Longrightarrow>
   r \<in> set (root_names u) \<Longrightarrow> rk r < rk c"
  by (auto simp: ranked_def list_all_iff dest!: map_of_SomeD)

lemma derive_roots_within_limit:
  assumes col: "\<And>c df. rk c < depth \<Longrightarrow> derive_column depth m df c \<noteq> Inl RecursionError"
  shows "list_all (\<lambda>r. rk r < depth) rs \<Longrightarrow> derive_roots depth m df rs acc \<noteq> Inl RecursionError"
proof (induction rs arbitrary: df acc)
  case Nil
  then show ?case by simp
next
  case (Cons r rs)
  then have "derive_column depth m df r \<noteq> Inl RecursionError" using col by simp
  then show ?case using Cons by (auto split: sum.splits)
qed

lemma derive_column_within_limit:
  assumes rk: "ranked m rk"
  shows "rk c < depth \<Longrightarrow> derive_column depth m df c \<noteq> Inl RecursionError"
proof (induction depth arbitrary: c df)
  case 0
  then show ?case by simp
next
  case (Suc depth)
  show ?case
  proof (cases "map_of (column_infos m) c")
    case None
    then show ?thesis by simp
  next
    case (Some d)
    show ?thesis
    proof (cases d)
      case None
      then show ?thesis using Some by simp
    next
      case (Some derived_from)
      note d = \<open>map_of (column_infos m) c = Some d\<close> Some
      show ?thesis
      proof (cases derived_from)
        case (DerivedStr src)
        then show ?thesis using d by (simp add: subscript_def split: option.splits)
      next
        case (DerivedExpr u)
        have "list_all (\<lambda>r. rk r < depth) (rev (root_names u))"
          unfolding list_all_iff
        proof
          fix r assume "r \<in> set (rev (root_names u))"
          then have "rk r < rk c" using ranked_roots [OF rk, of c u r] d DerivedExpr by simp
          then show "rk r < depth" using Suc.prems by simp
        qed
        then have "derive_roots depth m df (rev (root_names u)) [] \<noteq> Inl RecursionError"
          by (rule derive_roots_within_limit [rotated]) (rule Suc.IH)
        then show ?thesis
          using d DerivedExpr by (auto simp: subscript_def split: option.splits sum.splits)
      next
        case DerivedOther
        then show ?thesis using d by (simp add: subscript_def split: option.splits)
      qed
    qed
  qed
qed

lemma derive_loop_within_limit:
  assumes rk: "ranked m rk"
  shows "list_all (\<lambda>c. rk c < depth) cs \<Longrightarrow> derive_loop depth m cs st \<noteq> Inl RecursionError"
proof (induction cs arbitrary: st)
  case Nil
  then show ?case by simp
next
  case (Cons c cs)
  obtain df derived where st: "st = (df, derived)" by (cases st)
  have "derive_column depth m df c \<noteq> Inl RecursionError"
    using derive_column_within_limit [OF rk] Cons.prems by simp
  then show ?case using Cons st by (auto split: sum.splits)
qed

lemma derive_within_limit:
  assumes "ranked m rk" and "list_all (\<lambda>c. rk c < depth) (to_derive m columns)"
  shows "derive set_iter depth m columns schema_names \<noteq> Inl RecursionError"
  using derive_loop_within_limit [OF assms, of "([], [])"]
  by (auto simp: derive_def Let_def split: sum.splits)

subsection \<open>Deriving twice\<close>

text \<open>
  Claim C8 does not hold of the code. \<^verbatim>\<open>b\<close> is derived from \<^verbatim>\<open>a\<close> by name, and a name is
  taken from the frame as it is, without deriving it first. The first call copies the
  old \<^verbatim>\<open>a\<close> into \<^verbatim>\<open>b\<close> and then derives \<^verbatim>\<open>a\<close>; the second call copies the new \<^verbatim>\<open>a\<close>.
\<close>

theorem derive_not_idempotent:
  "derive_df remdups 1 example_conv Relay (Some [''b'', ''a'']) relay_frame = Inr relay_once
   \<and> derive_df remdups 1 example_conv Relay (Some [''b'', ''a'']) relay_once = Inr relay_twice
   \<and> derive_df remdups 1 example_conv Relay None relay_frame = Inr relay_once
   \<and> derive_df remdups 1 example_conv Relay None relay_once = Inr relay_twice
   \<and> relay_once \<noteq> relay_twice"
  by code_simp

text \<open>
  The branch for expressions derives its roots first: with \<^verbatim>\<open>b\<close> derived from the
  expression \<^verbatim>\<open>pl.col("a")\<close> the first call gives what the second gives.
\<close>

lemma derive_expression_sibling:
  "derive_df remdups 2 example_conv RelayExpr (Some [''b'', ''a'']) relay_frame = Inr relay_twice
   \<and> derive_df remdups 2 example_conv RelayExpr (Some [''b'', ''a'']) relay_twice = Inr relay_twice"
  by code_simp

end
